theory Spec2Isabelle
  imports Main "HOL-Library.Sublist"
begin

section \<open>Exceptions, futures and the observable world\<close>

text \<open>
  The exception classes that \<^verbatim>\<open>composer/utils/remote_uploader.py\<close> raises, catches or
  lets through. Only the class is kept (and, for \<^verbatim>\<open>FileExistsError\<close>, the object name
  of its message); \<open>OtherError\<close> stands for any other exception of a collaborator.
\<close>

datatype exc =
    ValueError
  | FileExistsError string
  | FileNotFoundError
  | ObjectStoreTransientError
  | RuntimeError
  | AttributeError
  | AssertionError
  | OtherError string

text \<open>
  A \<^verbatim>\<open>concurrent.futures.Future\<close> of the process pool. A task either has finished
  (\<open>Done\<close>, with its outcome) or is still in flight; an in-flight task carries what it
  will resolve to, \<open>None\<close> for a worker that hangs for ever. Futures are objects, so
  the tracking list holds their identities and their states live in the world.
\<close>

datatype outcome = Succeeded | Failed exc

datatype fstate = Done outcome | InFlight "outcome option"

type_synonym handle = nat

text \<open>
  What the code does to its surroundings, in the order it does it. \<open>Await h b\<close> is a call
  of \<^verbatim>\<open>future.exception()\<close> on \<open>h\<close>; \<open>b\<close> says whether the caller had to block
  because \<open>h\<close> was still in flight.
\<close>

datatype event =
    Sleep int
  | Probe string
  | Upload string string
  | Remove string
  | Validate string
  | Copy string string
  | Submit handle string string bool
  | Await handle bool
  | Shutdown

record world =
  files :: "string set"
  fut :: "handle \<Rightarrow> fstate"
  next_future :: handle
  trace :: "event list"

definition emit :: "event \<Rightarrow> world \<Rightarrow> world" where
  "emit ev w = w\<lparr>trace := trace w @ [ev]\<rparr>"

text \<open>The external object-store client, as far as this file calls it; the replies of the
  remote side are given. \<open>upload_object\<close> is told how many uploads were made before, so
  that a transient failure may go away on a later attempt.\<close>

record store =
  is_mlflow :: bool
  get_object_size :: "string \<Rightarrow> exc + nat"
  upload_object :: "nat \<Rightarrow> string \<Rightarrow> string \<Rightarrow> exc option"
  get_dbfs_path :: "string \<Rightarrow> exc + string"

text \<open>The fields of \<^verbatim>\<open>RemoteUploader\<close>; of \<^verbatim>\<open>self.executor\<close> the pool size and
  whether it has been shut down.\<close>

record uploader =
  remote_folder :: string
  upload_staging_folder :: string
  path :: string
  is_dbfs :: bool
  object_store :: "store option"
  num_attempts :: int
  max_workers :: int
  executor_shutdown :: bool
  futures :: "handle list"

subsection \<open>Future.done() and Future.exception()\<close>

definition future_done :: "world \<Rightarrow> handle \<Rightarrow> bool" where
  "future_done w h = (case fut w h of Done _ \<Rightarrow> True | InFlight _ \<Rightarrow> False)"

definition exc_of :: "outcome \<Rightarrow> exc option" where
  "exc_of oc = (case oc of Succeeded \<Rightarrow> None | Failed e \<Rightarrow> Some e)"

text \<open>\<^verbatim>\<open>future.exception()\<close> blocks until the future resolves: on a finished future it
  answers at once, on one in flight it returns when the task is over, and it never returns
  (\<open>None\<close>) when the task hangs.\<close>

definition future_exception :: "world \<Rightarrow> handle \<Rightarrow> (exc option \<times> world) option" where
  "future_exception w h =
     (case fut w h of
        Done oc \<Rightarrow> Some (exc_of oc, emit (Await h False) w)
      | InFlight None \<Rightarrow> None
      | InFlight (Some oc) \<Rightarrow>
          Some (exc_of oc, emit (Await h True) (w\<lparr>fut := (fut w)(h := Done oc)\<rparr>)))"

definition eventual :: "world \<Rightarrow> handle \<Rightarrow> outcome option" where
  "eventual w h = (case fut w h of Done oc \<Rightarrow> Some oc | InFlight r \<Rightarrow> r)"

section \<open>RemoteUploader.check\_workers and RemoteUploader.wait\<close>

text \<open>\<^verbatim>\<open>list.remove(x)\<close> deletes the first element equal to \<open>x\<close> and raises
  \<^verbatim>\<open>ValueError\<close> when there is none.\<close>

definition list_remove :: "'a \<Rightarrow> 'a list \<Rightarrow> exc + 'a list" where
  "list_remove x xs = (if x \<in> set xs then Inr (remove1 x xs) else Inl ValueError)"

fun remove_loop :: "handle list \<Rightarrow> handle list \<Rightarrow> exc + handle list" where
  "remove_loop [] futs = Inr futs"
| "remove_loop (future # rest) futs =
     (case list_remove future futs of
        Inl e \<Rightarrow> Inl e
      | Inr futs' \<Rightarrow> remove_loop rest futs')"

fun check_loop ::
  "world \<Rightarrow> handle list \<Rightarrow> handle list \<Rightarrow> ((exc + handle list) \<times> world) option" where
  "check_loop w [] done_futures = Some (Inr done_futures, w)"
| "check_loop w (future # rest) done_futures =
     (if future_done w future then
        (case future_exception w future of
           None \<Rightarrow> None
         | Some (Some e, w') \<Rightarrow> Some (Inl e, w')
         | Some (None, w') \<Rightarrow> check_loop w' rest (done_futures @ [future]))
      else check_loop w rest done_futures)"

definition check_workers ::
  "uploader \<Rightarrow> world \<Rightarrow> ((exc + unit) \<times> uploader \<times> world) option" where
  "check_workers self w =
     (case check_loop w (futures self) [] of
        None \<Rightarrow> None
      | Some (Inl e, w') \<Rightarrow> Some (Inl e, self, w')
      | Some (Inr done_futures, w') \<Rightarrow>
          (case remove_loop done_futures (futures self) of
             Inl e \<Rightarrow> Some (Inl e, self, w')
           | Inr futs \<Rightarrow> Some (Inr (), self\<lparr>futures := futs\<rparr>, w')))"

fun wait_loop :: "world \<Rightarrow> handle list \<Rightarrow> (exc option \<times> world) option" where
  "wait_loop w [] = Some (None, w)"
| "wait_loop w (future # rest) =
     (case future_exception w future of
        None \<Rightarrow> None
      | Some (Some e, w') \<Rightarrow> Some (Some e, w')
      | Some (None, w') \<Rightarrow> wait_loop w' rest)"

definition wait :: "uploader \<Rightarrow> world \<Rightarrow> ((exc + unit) \<times> uploader \<times> world) option" where
  "wait self w =
     (case wait_loop w (futures self) of
        None \<Rightarrow> None
      | Some (Some e, w') \<Rightarrow> Some (Inl e, self, w')
      | Some (None, w') \<Rightarrow> Some (Inr (), self\<lparr>futures := []\<rparr>, w'))"


text \<open>The handles on which \<^verbatim>\<open>future.exception()\<close> was called, in the order of the calls.\<close>

fun awaited :: "event list \<Rightarrow> handle list" where
  "awaited [] = []"
| "awaited (Await h b # t) = h # awaited t"
| "awaited (ev # t) = awaited t"

section \<open>The collaborators outside this file\<close>

text \<open>
  What \<^verbatim>\<open>remote_uploader.py\<close> imports from the rest of the package, from the
  distributed runtime and from the process environment is a parameter of the model:
  the constant \<^verbatim>\<open>MLFLOW_DBFS_PATH_PREFIX\<close>, \<^verbatim>\<open>parse_uri\<close>, the constructors of the
  object stores (each may raise), \<^verbatim>\<open>UCObjectStore.validate_path\<close>,
  \<^verbatim>\<open>validate_credentials\<close> (told how many probes were made before), the two ranks,
  the path a non-leader receives from \<^verbatim>\<open>broadcast_object_list\<close>, the value of the
  variable \<^verbatim>\<open>COMPOSER_LOCAL_RANK_STAGGER_SECONDS\<close>, Python's \<^verbatim>\<open>int\<close> on a string, and
  the name of the temporary directory.
\<close>

record env =
  MLFLOW_DBFS_PATH_PREFIX :: string
  parse_uri :: "string \<Rightarrow> string \<times> string \<times> string"
  maybe_create_object_store_from_uri :: "string \<Rightarrow> exc + store option"
  MLFlowObjectStore :: "string \<Rightarrow> exc + store"
  UCObjectStore :: "string \<Rightarrow> exc + store"
  UCObjectStore_validate_path :: "string \<Rightarrow> exc option"
  validate_credentials :: "nat \<Rightarrow> store option \<Rightarrow> string \<Rightarrow> exc option"
  get_global_rank :: int
  get_local_rank :: int
  broadcast_received :: string
  stagger_seconds_var :: "string option"
  int_of_str :: "string \<Rightarrow> int option"
  tempdir_name :: string

definition is_transient :: "exc \<Rightarrow> bool" where
  "is_transient e = (e = ObjectStoreTransientError)"

text \<open>Modelled from the spec: \<^verbatim>\<open>composer.utils.retrying.retry\<close> is not part of this file.
  The spec's Retry Policy invokes the operation; when it raises an error of the transient
  class it is retried until it succeeds or the attempt budget is exhausted, and then the
  last error is raised unchanged; any other error propagates at its first occurrence. The
  operation receives its retry index. The fuel of \<open>retry_loop\<close> is the number of attempts
  left after the current one; the backoff between attempts, whose timing the spec leaves
  open, is not part of the model.
\<close>

fun retry_loop ::
  "(exc \<Rightarrow> bool) \<Rightarrow> nat \<Rightarrow> nat \<Rightarrow> (nat \<Rightarrow> 's \<Rightarrow> (exc + 'a) \<times> 's) \<Rightarrow> 's \<Rightarrow> (exc + 'a) \<times> 's" where
  "retry_loop transient 0 i operation s = operation i s"
| "retry_loop transient (Suc n) i operation s =
     (case operation i s of
        (Inr v, s') \<Rightarrow> (Inr v, s')
      | (Inl e, s') \<Rightarrow>
          if transient e then retry_loop transient n (Suc i) operation s' else (Inl e, s'))"

text \<open>Modelled from the spec: \<^verbatim>\<open>retry(transientErrorClass, maxAttempts)(operation)()\<close>, the
  first invocation having retry index 0 and at most \<open>max_attempts - 1\<close> retries following it.\<close>

definition retry ::
  "(exc \<Rightarrow> bool) \<Rightarrow> int \<Rightarrow> (nat \<Rightarrow> 's \<Rightarrow> (exc + 'a) \<times> 's) \<Rightarrow> 's \<Rightarrow> (exc + 'a) \<times> 's" where
  "retry transient max_attempts operation s =
     retry_loop transient (nat (max_attempts - 1)) 0 operation s"

section \<open>The upload worker\<close>

text \<open>Lines 36 to 40, \<^verbatim>\<open>_build_dbfs_backend\<close>; \<open>is_mlflow\<close> is what
  \<^verbatim>\<open>isinstance(_, MLFlowObjectStore)\<close> will answer on the client built.\<close>

definition build_dbfs_backend :: "env \<Rightarrow> string \<Rightarrow> exc + store" where
  "build_dbfs_backend env p =
     (if prefix (MLFLOW_DBFS_PATH_PREFIX env) p then
        map_sum id (\<lambda>s. s\<lparr>is_mlflow := True\<rparr>) (MLFlowObjectStore env p)
      else
        (case UCObjectStore_validate_path env p of
           Some e \<Rightarrow> Inl e
         | None \<Rightarrow> map_sum id (\<lambda>s. s\<lparr>is_mlflow := False\<rparr>) (UCObjectStore env p)))"

text \<open>A method call on the client; \<^verbatim>\<open>maybe_create_object_store_from_uri\<close> may have
  returned \<^verbatim>\<open>None\<close>, on which any method call raises \<^verbatim>\<open>AttributeError\<close>.\<close>

definition call_get_object_size ::
  "store option \<Rightarrow> string \<Rightarrow> world \<Rightarrow> (exc + nat) \<times> world" where
  "call_get_object_size ostore name w =
     (case ostore of
        None \<Rightarrow> (Inl AttributeError, w)
      | Some s \<Rightarrow> (get_object_size s name, emit (Probe name) w))"

definition uploads_made :: "world \<Rightarrow> nat" where
  "uploads_made w = length (filter (\<lambda>ev. case ev of Upload _ _ \<Rightarrow> True | _ \<Rightarrow> False) (trace w))"

definition call_upload_object ::
  "store option \<Rightarrow> string \<Rightarrow> string \<Rightarrow> world \<Rightarrow> exc option \<times> world" where
  "call_upload_object ostore object_name filename w =
     (case ostore of
        None \<Rightarrow> (Some AttributeError, w)
      | Some s \<Rightarrow>
          (upload_object s (uploads_made w) object_name filename,
           emit (Upload object_name filename) w))"

text \<open>\<^verbatim>\<open>os.remove\<close> raises \<^verbatim>\<open>FileNotFoundError\<close> on a path that is not there;
  \<^verbatim>\<open>time.sleep\<close> raises \<^verbatim>\<open>ValueError\<close> on a negative length.\<close>

definition os_remove :: "string \<Rightarrow> world \<Rightarrow> (exc + unit) \<times> world" where
  "os_remove p w =
     (if p \<in> files w then (Inr (), emit (Remove p) (w\<lparr>files := files w - {p}\<rparr>))
      else (Inl FileNotFoundError, w))"

definition time_sleep :: "int \<Rightarrow> world \<Rightarrow> (exc + unit) \<times> world" where
  "time_sleep secs w = (if secs < 0 then (Inl ValueError, w) else (Inr (), emit (Sleep secs) w))"

text \<open>Lines 59 to 74, the body of the retried \<^verbatim>\<open>upload_file(retry_index)\<close>: the
  existence probe on the first attempt when \<^verbatim>\<open>overwrite\<close> is false, the upload, the
  removal of the staged copy.\<close>

definition upload_file ::
  "store option \<Rightarrow> string \<Rightarrow> string \<Rightarrow> bool \<Rightarrow> nat \<Rightarrow> world \<Rightarrow> (exc + unit) \<times> world" where
  "upload_file ostore remote_file_name local_file_path overwrite retry_index w =
     (case (if retry_index = 0 \<and> \<not> overwrite then
              (case call_get_object_size ostore remote_file_name w of
                 (Inl e, w1) \<Rightarrow> (if e = FileNotFoundError then None else Some e, w1)
               | (Inr _, w1) \<Rightarrow> (Some (FileExistsError remote_file_name), w1))
            else (None, w)) of
        (Some e, w1) \<Rightarrow> (Inl e, w1)
      | (None, w1) \<Rightarrow>
          (case call_upload_object ostore remote_file_name local_file_path w1 of
             (Some e, w2) \<Rightarrow> (Inl e, w2)
           | (None, w2) \<Rightarrow> os_remove local_file_path w2))"

text \<open>\<^verbatim>\<open>int(os.environ.get('COMPOSER_LOCAL_RANK_STAGGER_SECONDS', 0))\<close>: \<open>None\<close> is the
  \<^verbatim>\<open>ValueError\<close> of \<^verbatim>\<open>int\<close> on a string that is no integer.\<close>

definition local_rank_stagger :: "env \<Rightarrow> int option" where
  "local_rank_stagger env =
     (case stagger_seconds_var env of None \<Rightarrow> Some 0 | Some s \<Rightarrow> int_of_str env s)"

text \<open>Lines 52 to 57: the worker builds its own client.\<close>

definition worker_object_store :: "env \<Rightarrow> string \<Rightarrow> bool \<Rightarrow> string \<Rightarrow> exc + store option" where
  "worker_object_store env folder dbfs dbfs_path =
     (if dbfs then map_sum id Some (build_dbfs_backend env dbfs_path)
      else maybe_create_object_store_from_uri env folder)"

text \<open>Lines 43 to 85, \<^verbatim>\<open>_upload_file_to_object_store\<close>, the task a pool process runs:
  the client, the stagger sleep, the retried upload, and 0 as result.\<close>

definition upload_file_to_object_store ::
  "env \<Rightarrow> string \<Rightarrow> bool \<Rightarrow> string \<Rightarrow> string \<Rightarrow> string \<Rightarrow> bool \<Rightarrow> int \<Rightarrow> world
     \<Rightarrow> (exc + int) \<times> world" where
  "upload_file_to_object_store env folder dbfs dbfs_path remote_file_name local_file_path
       overwrite attempts w =
     (case worker_object_store env folder dbfs dbfs_path of
        Inl e \<Rightarrow> (Inl e, w)
      | Inr ostore \<Rightarrow>
          (case local_rank_stagger env of
             None \<Rightarrow> (Inl ValueError, w)
           | Some stagger \<Rightarrow>
               (case time_sleep (get_local_rank env * stagger) w of
                  (Inl e, w1) \<Rightarrow> (Inl e, w1)
                | (Inr _, w1) \<Rightarrow>
                    (case retry is_transient attempts
                            (upload_file ostore remote_file_name local_file_path overwrite) w1 of
                       (Inl e, w2) \<Rightarrow> (Inl e, w2)
                     | (Inr _, w2) \<Rightarrow> (Inr 0, w2)))))"

section \<open>RemoteUploader: construction, init, submission, closing\<close>

text \<open>Lines 91 to 122, \<^verbatim>\<open>__init__\<close>.\<close>

definition RemoteUploader :: "env \<Rightarrow> string \<Rightarrow> int \<Rightarrow> int \<Rightarrow> exc + uploader" where
  "RemoteUploader env folder num_concurrent_uploads attempts =
     (if num_concurrent_uploads < 1 \<or> attempts < 1 then Inl ValueError
      else
        (case parse_uri env folder of
           (backend, _, p) \<Rightarrow>
             Inr \<lparr>remote_folder = folder, upload_staging_folder = tempdir_name env, path = p,
                  is_dbfs = (backend = ''dbfs''), object_store = None,
                  num_attempts = attempts, max_workers = num_concurrent_uploads,
                  executor_shutdown = False, futures = []\<rparr>))"

definition sentinel :: string where
  "sentinel = ''.credentials_validated_successfully''"

definition validations_made :: "world \<Rightarrow> nat" where
  "validations_made w = length (filter (\<lambda>ev. case ev of Validate _ \<Rightarrow> True | _ \<Rightarrow> False) (trace w))"

text \<open>Line 150, one call of \<^verbatim>\<open>validate_credentials(self.object_store, sentinel)\<close>; it
  takes no retry index.\<close>

definition validate_once :: "env \<Rightarrow> uploader \<Rightarrow> nat \<Rightarrow> world \<Rightarrow> (exc + unit) \<times> world" where
  "validate_once env self i w =
     (case validate_credentials env (validations_made w) (object_store self) sentinel of
        Some e \<Rightarrow> (Inl e, emit (Validate sentinel) w)
      | None \<Rightarrow> (Inr (), emit (Validate sentinel) w))"

text \<open>Lines 146 to 150: the tail of \<^verbatim>\<open>init\<close> that every path not returning early
  reaches.\<close>

definition init_validate :: "env \<Rightarrow> uploader \<Rightarrow> world \<Rightarrow> (exc + unit) \<times> uploader \<times> world" where
  "init_validate env self w =
     (if get_global_rank env = 0 then
        (case retry is_transient (num_attempts self) (validate_once env self) w of
           (r, w') \<Rightarrow> (r, self, w'))
      else (Inr (), self, w))"

text \<open>Lines 135 to 139: what the leader does on a managed MLflow path.\<close>

definition leader_resolve :: "env \<Rightarrow> uploader \<Rightarrow> (exc + unit) \<times> uploader" where
  "leader_resolve env self =
     (case (case object_store self of
              None \<Rightarrow> map_sum id Some (build_dbfs_backend env (path self))
            | Some s \<Rightarrow> Inr (Some s)) of
        Inl e \<Rightarrow> (Inl e, self)
      | Inr None \<Rightarrow> (Inl AssertionError, self)
      | Inr (Some s) \<Rightarrow>
          (let self1 = self\<lparr>object_store := Some s\<rparr> in
           if \<not> is_mlflow s then (Inl AssertionError, self1)
           else
             (case get_dbfs_path s (path self1) of
                Inl e \<Rightarrow> (Inl e, self1)
              | Inr p \<Rightarrow> (Inr (), self1\<lparr>path := p\<rparr>))))"

text \<open>Lines 124 to 150, \<^verbatim>\<open>init\<close>. A raise leaves the assignments made before it.\<close>

definition init :: "env \<Rightarrow> uploader \<Rightarrow> world \<Rightarrow> (exc + unit) \<times> uploader \<times> world" where
  "init env self w =
     (if \<not> is_dbfs self then
        (case (case object_store self of
                 None \<Rightarrow> maybe_create_object_store_from_uri env (remote_folder self)
               | Some s \<Rightarrow> Inr (Some s)) of
           Inl e \<Rightarrow> (Inl e, self, w)
         | Inr ostore \<Rightarrow> init_validate env (self\<lparr>object_store := ostore\<rparr>) w)
      else if \<not> prefix (MLFLOW_DBFS_PATH_PREFIX env) (path self) then
        (case (case object_store self of
                 None \<Rightarrow> map_sum id Some (build_dbfs_backend env (path self))
               | Some s \<Rightarrow> Inr (Some s)) of
           Inl e \<Rightarrow> (Inl e, self, w)
         | Inr ostore \<Rightarrow> (Inr (), self\<lparr>object_store := ostore\<rparr>, w))
      else
        (case (if get_global_rank env = 0 then leader_resolve env self else (Inr (), self)) of
           (Inl e, self1) \<Rightarrow> (Inl e, self1, w)
         | (Inr _, self1) \<Rightarrow>
             (let self2 = (if get_global_rank env = 0 then self1
                           else self1\<lparr>path := broadcast_received env\<rparr>) in
              if get_global_rank env \<noteq> 0 then
                (case build_dbfs_backend env (path self2) of
                   Inl e \<Rightarrow> (Inl e, self2, w)
                 | Inr s \<Rightarrow> init_validate env (self2\<lparr>object_store := Some s\<rparr>) w)
              else init_validate env self2 w)))"

text \<open>\<^verbatim>\<open>os.path.join\<close> of two components, on POSIX.\<close>

definition os_path_join :: "string \<Rightarrow> string \<Rightarrow> string" where
  "os_path_join a b =
     (if b \<noteq> [] \<and> hd b = CHR ''/'' then b
      else if a = [] \<or> last a = CHR ''/'' then a @ b
      else a @ ''/'' @ b)"

text \<open>\<^verbatim>\<open>shutil.copy2\<close> to a new file name: the source must exist. Other failures of
  the file system are outside the model.\<close>

definition shutil_copy2 :: "string \<Rightarrow> string \<Rightarrow> world \<Rightarrow> (exc + unit) \<times> world" where
  "shutil_copy2 src dst w =
     (if src \<in> files w then (Inr (), emit (Copy src dst) (w\<lparr>files := insert dst (files w)\<rparr>))
      else (Inl FileNotFoundError, w))"

text \<open>\<^verbatim>\<open>executor.submit\<close>: a pool that was shut down refuses with \<^verbatim>\<open>RuntimeError\<close>
  ("cannot schedule new futures after shutdown"); otherwise a fresh future is created, in
  flight, with \<open>destiny\<close> what its task will end in.\<close>

definition executor_submit ::
  "uploader \<Rightarrow> string \<Rightarrow> string \<Rightarrow> bool \<Rightarrow> outcome option \<Rightarrow> world \<Rightarrow> (exc + handle) \<times> world" where
  "executor_submit self remote_file_name local_file_path overwrite destiny w =
     (if executor_shutdown self then (Inl RuntimeError, w)
      else
        (let h = next_future w in
         (Inr h,
          emit (Submit h remote_file_name local_file_path overwrite)
            (w\<lparr>fut := (fut w)(h := InFlight destiny), next_future := Suc h\<rparr>))))"

text \<open>\<open>uuid\<close> is the string of the \<^verbatim>\<open>uuid.uuid4()\<close> drawn by the call.\<close>

definition upload_file_async ::
  "uploader \<Rightarrow> string \<Rightarrow> string \<Rightarrow> bool \<Rightarrow> string \<Rightarrow> outcome option \<Rightarrow> world
     \<Rightarrow> (exc + handle) \<times> uploader \<times> world" where
  "upload_file_async self remote_file_name file_path overwrite uuid destiny w =
     (let copied_path = os_path_join (upload_staging_folder self) uuid in
      case shutil_copy2 file_path copied_path w of
        (Inl e, w1) \<Rightarrow> (Inl e, self, w1)
      | (Inr _, w1) \<Rightarrow>
          (case executor_submit self remote_file_name copied_path overwrite destiny w1 of
             (Inl e, w2) \<Rightarrow> (Inl e, self, w2)
           | (Inr future, w2) \<Rightarrow> (Inr future, self\<lparr>futures := futures self @ [future]\<rparr>, w2)))"

text \<open>\<^verbatim>\<open>executor.shutdown(wait=True)\<close> returns when every submitted task is over, and
  never when one of them hangs.\<close>

definition executor_shutdown_wait :: "uploader \<Rightarrow> world \<Rightarrow> (uploader \<times> world) option" where
  "executor_shutdown_wait self w =
     (if \<exists>h < next_future w. eventual w h = None then None
      else
        Some (self\<lparr>executor_shutdown := True\<rparr>,
              emit Shutdown
                (w\<lparr>fut := (\<lambda>h. if h < next_future w
                                then (case eventual w h of Some oc \<Rightarrow> Done oc | None \<Rightarrow> fut w h)
                                else fut w h)\<rparr>)))"

definition wait_and_close ::
  "uploader \<Rightarrow> world \<Rightarrow> ((exc + unit) \<times> uploader \<times> world) option" where
  "wait_and_close self w =
     (case wait self w of
        None \<Rightarrow> None
      | Some (Inl e, self1, w1) \<Rightarrow> Some (Inl e, self1, w1)
      | Some (Inr _, self1, w1) \<Rightarrow>
          (case executor_shutdown_wait self1 w1 of
             None \<Rightarrow> None
           | Some (self2, w2) \<Rightarrow> Some (Inr (), self2, w2)))"

subsection \<open>Sequences of calls on one uploader\<close>

text \<open>A caller's use of the uploader after construction: the public methods, interleaved
  with tasks of the pool coming to their end (\<open>TaskEnds\<close>). A call that raises leaves the
  caller free to go on; a call that never returns ends the run (\<open>None\<close>).\<close>

datatype call =
    Init
  | UploadFileAsync string string bool string "outcome option"
  | CheckWorkers
  | Wait
  | WaitAndClose
  | TaskEnds handle

definition task_ends :: "handle \<Rightarrow> world \<Rightarrow> world" where
  "task_ends h w =
     (case fut w h of
        InFlight (Some oc) \<Rightarrow> w\<lparr>fut := (fut w)(h := Done oc)\<rparr>
      | _ \<Rightarrow> w)"

fun step :: "env \<Rightarrow> call \<Rightarrow> uploader \<times> world \<Rightarrow> (uploader \<times> world) option" where
  "step env Init (self, w) = Some (snd (init env self w))"
| "step env (UploadFileAsync remote_file_name file_path overwrite uuid destiny) (self, w) =
     Some (snd (upload_file_async self remote_file_name file_path overwrite uuid destiny w))"
| "step env CheckWorkers (self, w) = map_option snd (check_workers self w)"
| "step env Wait (self, w) = map_option snd (wait self w)"
| "step env WaitAndClose (self, w) = map_option snd (wait_and_close self w)"
| "step env (TaskEnds h) (self, w) = Some (self, task_ends h w)"

fun run :: "env \<Rightarrow> call list \<Rightarrow> uploader \<times> world \<Rightarrow> (uploader \<times> world) option" where
  "run env [] st = Some st"
| "run env (c # cs) st = (case step env c st of None \<Rightarrow> None | Some st' \<Rightarrow> run env cs st')"

subsection \<open>Concrete states used to exercise the theorems\<close>

definition example_world :: world where
  "example_world =
     \<lparr>files = {''/data/ckpt.pt''},
      fut = (\<lambda>h. if h = 0 then Done Succeeded
                 else if h = 1 then InFlight (Some Succeeded)
                 else if h = 2 then InFlight (Some (Failed (FileExistsError ''ckpt'')))
                 else if h = 3 then Done (Failed ObjectStoreTransientError)
                 else InFlight None),
      next_future = 5, trace = []\<rparr>"

definition example_uploader :: "handle list \<Rightarrow> uploader" where
  "example_uploader hs =
     \<lparr>remote_folder = ''s3://bucket/run'', upload_staging_folder = ''/tmp/stage'',
      path = ''run'', is_dbfs = False, object_store = None, num_attempts = 3,
      max_workers = 2, executor_shutdown = False, futures = hs\<rparr>"


definition example_store :: store where
  "example_store =
     \<lparr>is_mlflow = False,
      get_object_size = (\<lambda>n. if n = ''old'' then Inr 10 else Inl FileNotFoundError),
      upload_object = (\<lambda>k n f. if k = 0 then Some ObjectStoreTransientError else None),
      get_dbfs_path = (\<lambda>p. Inr p)\<rparr>"

definition example_env :: env where
  "example_env =
     \<lparr>MLFLOW_DBFS_PATH_PREFIX = ''databricks/mlflow-tracking/'',
      parse_uri = (\<lambda>u. if u = ''dbfs:/Volumes/cat/sch/vol/run''
                       then (''dbfs'', [], ''Volumes/cat/sch/vol/run'')
                       else (''s3'', ''bucket'', ''run'')),
      maybe_create_object_store_from_uri = (\<lambda>u. Inr (Some example_store)),
      MLFlowObjectStore = (\<lambda>p. Inr example_store),
      UCObjectStore = (\<lambda>p. Inr example_store),
      UCObjectStore_validate_path = (\<lambda>p. if prefix ''Volumes'' p then None else Some ValueError),
      validate_credentials = (\<lambda>k s n. if k = 0 then Some ObjectStoreTransientError else None),
      get_global_rank = 0,
      get_local_rank = 2,
      broadcast_received = ''databricks/mlflow-tracking/1/2'',
      stagger_seconds_var = Some ''5'',
      int_of_str = (\<lambda>s. if s = ''5'' then Some 5 else None),
      tempdir_name = ''/tmp/stage''\<rparr>"

definition staged_world :: world where
  "staged_world =
     \<lparr>files = {''/tmp/stage/u1'', ''/tmp/stage/u2''}, fut = (\<lambda>h. InFlight None),
      next_future = 0, trace = []\<rparr>"

definition fresh_world :: world where
  "fresh_world =
     \<lparr>files = {''/data/ckpt.pt''}, fut = (\<lambda>h. InFlight None), next_future = 0, trace = []\<rparr>"

definition uc_uploader :: uploader where
  "uc_uploader =
     \<lparr>remote_folder = ''dbfs:/Volumes/cat/sch/vol/run'', upload_staging_folder = ''/tmp/stage'',
      path = ''Volumes/cat/sch/vol/run'', is_dbfs = True, object_store = None, num_attempts = 3,
      max_workers = 2, executor_shutdown = False, futures = []\<rparr>"

section \<open>Properties of check\_workers and wait\<close>

subsection \<open>Auxiliary facts\<close>

lemma future_done_emit [simp]: "future_done (emit ev w) h = future_done w h"
  by (simp add: future_done_def emit_def)

lemma future_done_trace [simp]: "future_done (w\<lparr>trace := t\<rparr>) h = future_done w h"
  by (simp add: future_done_def)

lemma future_exception_done:
  "fut w h = Done oc \<Longrightarrow> future_exception w h = Some (exc_of oc, emit (Await h False) w)"
  by (simp add: future_exception_def)

lemma remove_loop_skip:
  "\<forall>y\<in>set ys. P y \<Longrightarrow> \<not> P x \<Longrightarrow>
   remove_loop ys (x # zs) = map_sum id (Cons x) (remove_loop ys zs)"
proof (induction ys arbitrary: zs)
  case Nil
  then show ?case by simp
next
  case (Cons y ys)
  then have "y \<noteq> x" by auto
  with Cons show ?case by (auto simp: list_remove_def split: sum.splits)
qed

lemma remove_loop_filter:
  "remove_loop (filter P xs) xs = Inr (filter (\<lambda>x. \<not> P x) xs)"
proof (induction xs)
  case Nil
  then show ?case by simp
next
  case (Cons x xs)
  show ?case
  proof (cases "P x")
    case True
    with Cons show ?thesis by (simp add: list_remove_def)
  next
    case False
    have "remove_loop (filter P xs) (x # xs) = map_sum id (Cons x) (remove_loop (filter P xs) xs)"
      by (rule remove_loop_skip [where P = P]) (use False in auto)
    with False Cons show ?thesis by simp
  qed
qed

lemma check_loop_no_failure:
  "\<forall>h\<in>set hs. \<forall>e. fut w h \<noteq> Done (Failed e) \<Longrightarrow>
   check_loop w hs acc =
     Some (Inr (acc @ filter (future_done w) hs),
           w\<lparr>trace := trace w @ map (\<lambda>h. Await h False) (filter (future_done w) hs)\<rparr>)"
proof (induction hs arbitrary: w acc)
  case Nil
  then show ?case by simp
next
  case (Cons h hs)
  show ?case
  proof (cases "fut w h")
    case (Done oc)
    with Cons.prems have oc: "oc = Succeeded" by (cases oc) auto
    let ?w = "emit (Await h False) w"
    have "\<forall>x\<in>set hs. \<forall>e. fut ?w x \<noteq> Done (Failed e)"
      using Cons.prems by (simp add: emit_def)
    from Cons.IH [OF this] Done oc show ?thesis
      by (simp add: future_exception_done exc_of_def future_done_def emit_def)
  next
    case (InFlight r)
    with Cons show ?thesis by (simp add: future_done_def)
  qed
qed

lemma check_loop_failure:
  "\<forall>x\<in>set pre. \<forall>e. fut w x \<noteq> Done (Failed e) \<Longrightarrow> fut w h = Done (Failed e) \<Longrightarrow>
   check_loop w (pre @ h # post) acc =
     Some (Inl e,
           w\<lparr>trace := trace w @ map (\<lambda>h. Await h False) (filter (future_done w) pre)
                        @ [Await h False]\<rparr>)"
proof (induction pre arbitrary: w acc)
  case Nil
  then show ?case
    by (simp add: future_exception_done exc_of_def future_done_def emit_def)
next
  case (Cons x pre)
  show ?case
  proof (cases "fut w x")
    case (Done oc)
    with Cons.prems have oc: "oc = Succeeded" by (cases oc) auto
    let ?w = "emit (Await x False) w"
    have a: "\<forall>y\<in>set pre. \<forall>e. fut ?w y \<noteq> Done (Failed e)"
      using Cons.prems by (simp add: emit_def)
    have b: "fut ?w h = Done (Failed e)" using Cons.prems by (simp add: emit_def)
    from Cons.IH [OF a b] Done oc show ?thesis
      by (simp add: future_exception_done exc_of_def future_done_def emit_def)
  next
    case (InFlight r)
    with Cons show ?thesis by (simp add: future_done_def)
  qed
qed

lemma awaited_append [simp]: "awaited (s @ t) = awaited s @ awaited t"
  by (induction s rule: awaited.induct) simp_all

lemma future_exception_eventual:
  assumes "eventual w h = Some oc"
  shows "\<exists>w' b. future_exception w h = Some (exc_of oc, w') \<and> trace w' = trace w @ [Await h b]
          \<and> (\<forall>x. eventual w' x = eventual w x) \<and> files w' = files w
          \<and> next_future w' = next_future w"
proof (cases "fut w h")
  case (Done oc')
  with assms show ?thesis
    by (auto simp: future_exception_def eventual_def emit_def)
next
  case (InFlight r)
  with assms show ?thesis
    by (auto simp: future_exception_def eventual_def emit_def)
qed

lemma future_exception_hangs:
  "eventual w h = None \<Longrightarrow> future_exception w h = None"
  by (auto simp: future_exception_def eventual_def split: fstate.splits)

lemma wait_loop_success:
  "\<forall>h\<in>set hs. eventual w h = Some Succeeded \<Longrightarrow>
   \<exists>w'. wait_loop w hs = Some (None, w') \<and> awaited (trace w') = awaited (trace w) @ hs
        \<and> files w' = files w"
proof (induction hs arbitrary: w)
  case Nil
  then show ?case by simp
next
  case (Cons h hs)
  then have "eventual w h = Some Succeeded" by simp
  from future_exception_eventual [OF this] obtain w1 b where
    w1: "future_exception w h = Some (None, w1)" "trace w1 = trace w @ [Await h b]"
        "\<forall>x. eventual w1 x = eventual w x" "files w1 = files w"
    by (auto simp: exc_of_def)
  with Cons.prems have "\<forall>x\<in>set hs. eventual w1 x = Some Succeeded" by simp
  from Cons.IH [OF this] w1 show ?case by auto
qed

lemma wait_loop_failure:
  "\<forall>x\<in>set pre. eventual w x = Some Succeeded \<Longrightarrow> eventual w h = Some (Failed e) \<Longrightarrow>
   \<exists>w'. wait_loop w (pre @ h # post) = Some (Some e, w')
        \<and> awaited (trace w') = awaited (trace w) @ pre @ [h] \<and> files w' = files w"
proof (induction pre arbitrary: w)
  case Nil
  from future_exception_eventual [OF Nil(2)] show ?case
    by (auto simp: exc_of_def)
next
  case (Cons x pre)
  then have "eventual w x = Some Succeeded" by simp
  from future_exception_eventual [OF this] obtain w1 b where
    w1: "future_exception w x = Some (None, w1)" "trace w1 = trace w @ [Await x b]"
        "\<forall>x. eventual w1 x = eventual w x" "files w1 = files w"
    by (auto simp: exc_of_def)
  with Cons.prems have a: "\<forall>y\<in>set pre. eventual w1 y = Some Succeeded"
    and b: "eventual w1 h = Some (Failed e)" by simp_all
  from Cons.IH [OF a b] w1 show ?case by auto
qed

lemma check_workers_no_failure:
  assumes "\<forall>h\<in>set (futures self). \<forall>e. fut w h \<noteq> Done (Failed e)"
  shows "check_workers self w =
     Some (Inr (), self\<lparr>futures := filter (\<lambda>h. \<not> future_done w h) (futures self)\<rparr>,
           w\<lparr>trace := trace w @ map (\<lambda>h. Await h False) (filter (future_done w) (futures self))\<rparr>)"
  using check_loop_no_failure [OF assms, of "[]"]
  by (simp add: check_workers_def remove_loop_filter)

lemma check_workers_failure:
  assumes "futures self = pre @ h # post"
    and "\<forall>x\<in>set pre. \<forall>e. fut w x \<noteq> Done (Failed e)"
    and "fut w h = Done (Failed e)"
  shows "check_workers self w =
     Some (Inl e, self,
           w\<lparr>trace := trace w @ map (\<lambda>h. Await h False) (filter (future_done w) pre)
                        @ [Await h False]\<rparr>)"
  using check_loop_failure [OF assms(2,3), of post "[]"] assms(1)
  by (simp add: check_workers_def)

lemma first_failure_cases:
  obtains (none) "\<forall>h\<in>set hs. \<forall>e. fut w h \<noteq> Done (Failed e)"
  | (some) pre h post e where "hs = pre @ h # post"
      "\<forall>x\<in>set pre. \<forall>e. fut w x \<noteq> Done (Failed e)" "fut w h = Done (Failed e)"
proof (cases "\<exists>h\<in>set hs. \<exists>e. fut w h = Done (Failed e)")
  case True
  from split_list_first_prop [OF this] obtain pre h post where
    "hs = pre @ h # post" "\<exists>e. fut w h = Done (Failed e)"
    "\<forall>x\<in>set pre. \<not> (\<exists>e. fut w x = Done (Failed e))" by blast
  then show ?thesis using some by blast
next
  case False
  then show ?thesis using none by blast
qed


subsection \<open>Claims on wait\<close>

text \<open>
  C1. When every tracked handle eventually resolves successfully, \<^verbatim>\<open>wait()\<close> calls
  \<^verbatim>\<open>exception()\<close> on each tracked handle in list (submission) order, returns normally
  and leaves \<^verbatim>\<open>self.futures\<close> empty. When the first handle that does not succeed
  resolves with an error \<open>e\<close>, \<^verbatim>\<open>wait()\<close> raises \<open>e\<close> after having waited on the handles
  up to and including that one only, and \<^verbatim>\<open>self\<close> is unchanged.
\<close>

theorem wait_in_submission_order:
  "((\<forall>h\<in>set (futures self). eventual w h = Some Succeeded) \<longrightarrow>
      (\<exists>w'. wait self w = Some (Inr (), self\<lparr>futures := []\<rparr>, w')
            \<and> awaited (trace w') = awaited (trace w) @ futures self))
   \<and> (futures self = pre @ h # post \<and> (\<forall>x\<in>set pre. eventual w x = Some Succeeded)
        \<and> eventual w h = Some (Failed e) \<longrightarrow>
      (\<exists>w'. wait self w = Some (Inl e, self, w')
            \<and> awaited (trace w') = awaited (trace w) @ pre @ [h]))"
proof (intro conjI impI)
  assume "\<forall>h\<in>set (futures self). eventual w h = Some Succeeded"
  from wait_loop_success [OF this]
  show "\<exists>w'. wait self w = Some (Inr (), self\<lparr>futures := []\<rparr>, w')
            \<and> awaited (trace w') = awaited (trace w) @ futures self"
    by (auto simp: wait_def)
next
  assume a: "futures self = pre @ h # post \<and> (\<forall>x\<in>set pre. eventual w x = Some Succeeded)
        \<and> eventual w h = Some (Failed e)"
  then have "\<exists>w'. wait_loop w (pre @ h # post) = Some (Some e, w')
        \<and> awaited (trace w') = awaited (trace w) @ pre @ [h] \<and> files w' = files w"
    by (intro wait_loop_failure) simp_all
  with a show "\<exists>w'. wait self w = Some (Inl e, self, w')
            \<and> awaited (trace w') = awaited (trace w) @ pre @ [h]"
    by (auto simp: wait_def)
qed

theorem wait_in_submission_order_witness:
  "eventual example_world 0 = Some Succeeded \<and> eventual example_world 1 = Some Succeeded
   \<and> (\<exists>w'. wait (example_uploader [0, 1]) example_world
              = Some (Inr (), (example_uploader [0, 1])\<lparr>futures := []\<rparr>, w')
           \<and> awaited (trace w') = [0, 1])
   \<and> futures (example_uploader [0, 1, 2, 3]) = [0, 1] @ 2 # [3]
   \<and> eventual example_world 2 = Some (Failed (FileExistsError ''ckpt''))
   \<and> (\<exists>w'. wait (example_uploader [0, 1, 2, 3]) example_world
              = Some (Inl (FileExistsError ''ckpt''), example_uploader [0, 1, 2, 3], w')
           \<and> awaited (trace w') = [0, 1, 2])"
  using wait_in_submission_order [of "example_uploader [0, 1]" example_world "[]" 0 "[]" ValueError]
    wait_in_submission_order [of "example_uploader [0, 1, 2, 3]" example_world "[0, 1]" 2 "[3]"
       "FileExistsError ''ckpt''"]
  by (simp add: example_uploader_def example_world_def eventual_def)

subsection \<open>Claims on check\_workers\<close>

text \<open>
  C10. When some tracked handle is terminal and failed, \<^verbatim>\<open>check_workers()\<close> raises and
  the uploader, with its list of futures, is exactly what it was: no handle is removed,
  the succeeded ones seen earlier in the traversal included.
\<close>

theorem check_workers_raise_keeps_set:
  assumes "h \<in> set (futures self)" and "fut w h = Done (Failed e0)"
  shows "\<exists>e w'. check_workers self w = Some (Inl e, self, w') \<and> fut w' = fut w"
proof (cases rule: first_failure_cases [of "futures self" w])
  case none
  with assms show ?thesis by blast
next
  case (some pre x post e)
  from check_workers_failure [OF this] show ?thesis by simp
qed

theorem check_workers_raise_keeps_set_witness:
  "1 \<in> set (futures (example_uploader [0, 4, 0, 3, 1]))
   \<and> fut example_world 3 = Done (Failed ObjectStoreTransientError)
   \<and> (\<exists>e w'. check_workers (example_uploader [0, 4, 0, 3, 1]) example_world
          = Some (Inl e, example_uploader [0, 4, 0, 3, 1], w') \<and> fut w' = fut example_world)"
  using check_workers_raise_keeps_set [of 3 "example_uploader [0, 4, 0, 3, 1]" example_world
      ObjectStoreTransientError]
  by (simp add: example_uploader_def example_world_def)



text \<open>
  C2, as stated, fails: a handle that is terminal and succeeded is not removed when a
  later handle of the list is terminal and failed. Handle 0 has succeeded, handle 3 has
  failed; the call raises the error of 3 and handle 0 is still tracked.
\<close>

theorem check_workers_removes_succeeded_counterexample:
  "fut example_world 0 = Done Succeeded
   \<and> check_workers (example_uploader [0, 3]) example_world
       = Some (Inl ObjectStoreTransientError, example_uploader [0, 3],
               example_world\<lparr>trace := [Await 0 False, Await 3 False]\<rparr>)
   \<and> 0 \<in> set (futures (example_uploader [0, 3]))"
  by (simp add: check_workers_def example_uploader_def example_world_def future_done_def
        future_exception_def exc_of_def emit_def list_remove_def)

text \<open>
  C2, amended. \<^verbatim>\<open>check_workers()\<close> never blocks: it calls \<^verbatim>\<open>exception()\<close> only on
  handles that are already terminal (the list \<open>seen\<close>), and changes nothing else in the
  world. When it raises \<open>e\<close>, \<open>e\<close> is the stored error of the first terminal failed
  handle of the list and the uploader is unchanged. When it returns, no tracked handle was
  terminal and failed, and exactly the terminal handles have been removed from the list.
  When every tracked handle is in flight it returns, and nothing at all has changed.
\<close>

theorem check_workers_terminal_only:
  "\<exists>r self' seen.
     check_workers self w = Some (r, self', w\<lparr>trace := trace w @ map (\<lambda>h. Await h False) seen\<rparr>)
     \<and> (\<forall>h\<in>set seen. h \<in> set (futures self) \<and> future_done w h)
     \<and> (case r of
          Inl e \<Rightarrow>
            self' = self
            \<and> (\<exists>pre h post. futures self = pre @ h # post \<and> fut w h = Done (Failed e)
                  \<and> (\<forall>x\<in>set pre. \<forall>e'. fut w x \<noteq> Done (Failed e')))
        | Inr _ \<Rightarrow>
            (\<forall>h\<in>set (futures self). \<forall>e. fut w h \<noteq> Done (Failed e))
            \<and> self' = self\<lparr>futures := filter (\<lambda>h. \<not> future_done w h) (futures self)\<rparr>)
     \<and> ((\<forall>h\<in>set (futures self). \<not> future_done w h) \<longrightarrow> r = Inr () \<and> self' = self \<and> seen = [])"
proof (cases rule: first_failure_cases [of "futures self" w])
  case none
  let ?seen = "filter (future_done w) (futures self)"
  let ?s = "self\<lparr>futures := filter (\<lambda>h. \<not> future_done w h) (futures self)\<rparr>"
  have a: "check_workers self w
      = Some (Inr (), ?s, w\<lparr>trace := trace w @ map (\<lambda>h. Await h False) ?seen\<rparr>)"
    by (rule check_workers_no_failure [OF none])
  have b: "\<forall>h\<in>set ?seen. h \<in> set (futures self) \<and> future_done w h" by simp
  have c: "case (Inr () :: exc + unit) of
          Inl e \<Rightarrow>
            ?s = self
            \<and> (\<exists>pre h post. futures self = pre @ h # post \<and> fut w h = Done (Failed e)
                  \<and> (\<forall>x\<in>set pre. \<forall>e'. fut w x \<noteq> Done (Failed e')))
        | Inr _ \<Rightarrow>
            (\<forall>h\<in>set (futures self). \<forall>e. fut w h \<noteq> Done (Failed e)) \<and> ?s = ?s"
    using none by simp
  have d: "(\<forall>h\<in>set (futures self). \<not> future_done w h) \<longrightarrow>
      (Inr () :: exc + unit) = Inr () \<and> ?s = self \<and> ?seen = []"
  proof
    assume "\<forall>h\<in>set (futures self). \<not> future_done w h"
    then have "filter (\<lambda>h. \<not> future_done w h) (futures self) = futures self" "?seen = []"
      by (simp_all add: filter_empty_conv)
    then show "(Inr () :: exc + unit) = Inr () \<and> ?s = self \<and> ?seen = []" by simp
  qed
  from a b c d show ?thesis by blast
next
  case (some pre x post e)
  let ?seen = "filter (future_done w) pre @ [x]"
  from some have dx: "future_done w x" by (simp add: future_done_def)
  have a: "check_workers self w
      = Some (Inl e, self, w\<lparr>trace := trace w @ map (\<lambda>h. Await h False) ?seen\<rparr>)"
    using check_workers_failure [OF some] by simp
  have b: "\<forall>h\<in>set ?seen. h \<in> set (futures self) \<and> future_done w h"
    using some dx by auto
  have c: "case (Inl e :: exc + unit) of
          Inl e \<Rightarrow>
            self = self
            \<and> (\<exists>pre h post. futures self = pre @ h # post \<and> fut w h = Done (Failed e)
                  \<and> (\<forall>x\<in>set pre. \<forall>e'. fut w x \<noteq> Done (Failed e')))
        | Inr _ \<Rightarrow>
            (\<forall>h\<in>set (futures self). \<forall>e. fut w h \<noteq> Done (Failed e))
            \<and> self = self\<lparr>futures := filter (\<lambda>h. \<not> future_done w h) (futures self)\<rparr>"
    using some by auto
  have d: "(\<forall>h\<in>set (futures self). \<not> future_done w h) \<longrightarrow>
      (Inl e :: exc + unit) = Inr () \<and> self = self \<and> ?seen = []"
    using some dx by auto
  from a b c d show ?thesis by blast
qed


theorem check_workers_terminal_only_witness:
  "\<not> future_done example_world 1 \<and> \<not> future_done example_world 4
   \<and> check_workers (example_uploader [1, 4]) example_world
       = Some (Inr (), example_uploader [1, 4], example_world)"
proof -
  have h: "\<forall>h\<in>set (futures (example_uploader [1, 4])). \<not> future_done example_world h"
    by (simp add: example_uploader_def example_world_def future_done_def)
  have g: "\<not> future_done example_world 1" "\<not> future_done example_world 4"
    by (simp_all add: example_world_def future_done_def)
  from check_workers_terminal_only [of "example_uploader [1, 4]" example_world] h
  have "check_workers (example_uploader [1, 4]) example_world
       = Some (Inr (), example_uploader [1, 4], example_world)" by auto
  with g show ?thesis by simp
qed

section \<open>Properties of the upload worker\<close>

subsection \<open>Auxiliary facts\<close>

lemma upload_file_effect:
  assumes "upload_file ostore rn lp ov i w = (r, w')"
  shows "(\<exists>t. trace w' = trace w @ t \<and> set t \<subseteq> {Probe rn, Upload rn lp, Remove lp})
       \<and> (case r of Inr _ \<Rightarrow> lp \<in> files w \<and> files w' = files w - {lp}
                   | Inl _ \<Rightarrow> files w' = files w)"
  using assms
  by (auto simp: upload_file_def call_get_object_size_def call_upload_object_def os_remove_def
      emit_def split: if_splits option.splits sum.splits prod.splits)

lemma retry_loop_upload_effect:
  assumes "retry_loop tr n i (upload_file ostore rn lp ov) w = (r, w')"
  shows "(\<exists>t. trace w' = trace w @ t \<and> set t \<subseteq> {Probe rn, Upload rn lp, Remove lp})
       \<and> (case r of Inr _ \<Rightarrow> lp \<in> files w \<and> files w' = files w - {lp}
                   | Inl _ \<Rightarrow> files w' = files w)"
  using assms
proof (induction n arbitrary: i w)
  case 0
  then show ?case using upload_file_effect by simp
next
  case (Suc n)
  obtain r1 w1 where u: "upload_file ostore rn lp ov i w = (r1, w1)" by fastforce
  note e1 = upload_file_effect [OF u]
  show ?case
  proof (cases r1)
    case (Inr v)
    with Suc.prems u have "r = r1" "w' = w1" by simp_all
    with e1 Inr show ?thesis by simp
  next
    case (Inl e)
    show ?thesis
    proof (cases "tr e")
      case False
      with Inl Suc.prems u have "r = r1" "w' = w1" by simp_all
      with e1 Inl show ?thesis by simp
    next
      case True
      with Inl Suc.prems u have "retry_loop tr n (Suc i) (upload_file ostore rn lp ov) w1 = (r, w')"
        by simp
      from Suc.IH [OF this] e1 Inl show ?thesis
        by (auto split: sum.splits)
    qed
  qed
qed



lemma retry_loop_first_attempt:
  assumes "upload_file ostore rn lp ov i w = (r1, w1)"
    and "retry_loop tr n i (upload_file ostore rn lp ov) w = (r, w')"
  shows "\<exists>t. trace w' = trace w1 @ t"
proof (cases n)
  case 0
  with assms show ?thesis by simp
next
  case (Suc m)
  show ?thesis
  proof (cases "\<exists>e. r1 = Inl e \<and> tr e")
    case True
    with Suc assms have "retry_loop tr m (Suc i) (upload_file ostore rn lp ov) w1 = (r, w')"
      by auto
    from retry_loop_upload_effect [OF this] show ?thesis by blast
  next
    case False
    with Suc assms have "w' = w1" by (cases r1) auto
    then show ?thesis by simp
  qed
qed

lemma first_attempt_not_found:
  assumes "get_object_size s rn = Inl FileNotFoundError"
  shows "\<exists>r1 w1 t1. upload_file (Some s) rn lp False 0 w = (r1, w1)
           \<and> trace w1 = trace w @ Probe rn # Upload rn lp # t1"
  using assms
  by (auto simp: upload_file_def call_get_object_size_def call_upload_object_def os_remove_def
      emit_def split: option.splits)

lemma first_attempt_exists:
  assumes "get_object_size s rn = Inr sz"
  shows "upload_file (Some s) rn lp False 0 w = (Inl (FileExistsError rn), emit (Probe rn) w)"
  using assms by (simp add: upload_file_def call_get_object_size_def)

lemma retry_loop_terminal:
  assumes "operation i s = (Inl e, s')" and "\<not> tr e"
  shows "retry_loop tr n i operation s = (Inl e, s')"
  using assms by (cases n) simp_all

lemmas worker_eval =
  upload_file_to_object_store_def worker_object_store_def local_rank_stagger_def
  time_sleep_def retry_def upload_file_def call_get_object_size_def call_upload_object_def
  uploads_made_def os_remove_def emit_def is_transient_def eval_nat_numeral



lemma run_rank0:
  "upload_file_to_object_store (example_env\<lparr>get_local_rank := 0\<rparr>) ''s3://bucket/run'' False
       ''run'' ''old'' ''/tmp/stage/u1'' True 2 staged_world
   = (Inr 0, staged_world\<lparr>files := {''/tmp/stage/u2''},
        trace := [Sleep 0, Upload ''old'' ''/tmp/stage/u1'',
                  Upload ''old'' ''/tmp/stage/u1'', Remove ''/tmp/stage/u1'']\<rparr>)"
  by (simp add: worker_eval example_env_def example_store_def staged_world_def insert_Diff_if)

subsection \<open>Claims on the worker\<close>



text \<open>
  C4. With \<^verbatim>\<open>overwrite = False\<close> the first attempt probes the destination. When the
  probe raises \<^verbatim>\<open>FileNotFoundError\<close> the upload call follows the probe at once. When the
  probe returns a size, the retried operation raises \<^verbatim>\<open>FileExistsError\<close> after the probe
  alone: no upload was attempted and, the error not being of the transient class, no second
  attempt was made, whatever the attempt budget.
\<close>

theorem conflict_is_terminal:
  "(get_object_size s rn = Inl FileNotFoundError \<longrightarrow>
      (\<exists>r w' t. retry is_transient attempts (upload_file (Some s) rn lp False) w = (r, w')
                \<and> trace w' = trace w @ Probe rn # Upload rn lp # t))
   \<and> (\<forall>sz. get_object_size s rn = Inr sz \<longrightarrow>
         retry is_transient attempts (upload_file (Some s) rn lp False) w
           = (Inl (FileExistsError rn), emit (Probe rn) w)
         \<and> \<not> is_transient (FileExistsError rn))"
proof (intro conjI impI allI)
  assume "get_object_size s rn = Inl FileNotFoundError"
  from first_attempt_not_found [OF this] obtain r1 w1 t1 where
    a: "upload_file (Some s) rn lp False 0 w = (r1, w1)"
       "trace w1 = trace w @ Probe rn # Upload rn lp # t1" by blast
  obtain r w' where b: "retry is_transient attempts (upload_file (Some s) rn lp False) w = (r, w')"
    by fastforce
  then have "retry_loop is_transient (nat (attempts - 1)) 0 (upload_file (Some s) rn lp False) w
      = (r, w')" by (simp add: retry_def)
  from retry_loop_first_attempt [OF a(1) this] a(2) b
  show "\<exists>r w' t. retry is_transient attempts (upload_file (Some s) rn lp False) w = (r, w')
                \<and> trace w' = trace w @ Probe rn # Upload rn lp # t" by auto
next
  fix sz assume "get_object_size s rn = Inr sz"
  from first_attempt_exists [OF this]
  have "upload_file (Some s) rn lp False 0 w = (Inl (FileExistsError rn), emit (Probe rn) w)" .
  moreover have "\<not> is_transient (FileExistsError rn)" by (simp add: is_transient_def)
  ultimately show "retry is_transient attempts (upload_file (Some s) rn lp False) w
           = (Inl (FileExistsError rn), emit (Probe rn) w)"
    unfolding retry_def by (rule retry_loop_terminal)
next
  show "\<not> is_transient (FileExistsError rn)" by (simp add: is_transient_def)
qed

theorem conflict_is_terminal_witness:
  "get_object_size example_store ''new'' = Inl FileNotFoundError
   \<and> (\<exists>r w' t. retry is_transient 3 (upload_file (Some example_store) ''new'' ''/tmp/stage/u1'' False)
                  staged_world = (r, w')
              \<and> trace w' = trace staged_world @ Probe ''new'' # Upload ''new'' ''/tmp/stage/u1'' # t)
   \<and> get_object_size example_store ''old'' = Inr 10
   \<and> retry is_transient 3 (upload_file (Some example_store) ''old'' ''/tmp/stage/u1'' False)
        staged_world = (Inl (FileExistsError ''old''), emit (Probe ''old'') staged_world)
   \<and> \<not> is_transient (FileExistsError ''old'')"
  using conflict_is_terminal [of example_store "''new''" 3 "''/tmp/stage/u1''" staged_world]
    conflict_is_terminal [of example_store "''old''" 3 "''/tmp/stage/u1''" staged_world]
  by (simp add: example_store_def)


lemma run_unset:
  "upload_file_to_object_store (example_env\<lparr>stagger_seconds_var := None\<rparr>) ''s3://bucket/run''
       False ''run'' ''old'' ''/tmp/stage/u1'' True 2 staged_world
   = (Inr 0, staged_world\<lparr>files := {''/tmp/stage/u2''},
        trace := [Sleep 0, Upload ''old'' ''/tmp/stage/u1'',
                  Upload ''old'' ''/tmp/stage/u1'', Remove ''/tmp/stage/u1'']\<rparr>)"
  by (simp add: worker_eval example_env_def example_store_def staged_world_def insert_Diff_if)




section \<open>Properties of the uploader's life cycle\<close>

subsection \<open>No method assigns the two bounds\<close>

lemma init_validate_bounds:
  "init_validate env self w = (r, self', w') \<Longrightarrow>
     num_attempts self' = num_attempts self \<and> max_workers self' = max_workers self"
  by (auto simp: init_validate_def split: if_splits prod.splits)

lemma leader_resolve_bounds:
  "leader_resolve env self = (r, self') \<Longrightarrow>
     num_attempts self' = num_attempts self \<and> max_workers self' = max_workers self"
  by (auto simp: leader_resolve_def Let_def split: if_splits sum.splits option.splits)

lemma init_bounds:
  assumes "init env self w = (r, self', w')"
  shows "num_attempts self' = num_attempts self \<and> max_workers self' = max_workers self"
proof (cases "is_dbfs self")
  case False
  with assms show ?thesis
    by (auto simp: init_def split: sum.splits dest!: init_validate_bounds)
next
  case True
  show ?thesis
  proof (cases "prefix (MLFLOW_DBFS_PATH_PREFIX env) (path self)")
    case False
    with True assms show ?thesis by (auto simp: init_def split: sum.splits)
  next
    case p: True
    obtain r1 self1 where l:
      "(if get_global_rank env = 0 then leader_resolve env self else (Inr (), self)) = (r1, self1)"
      by fastforce
    then have b1: "num_attempts self1 = num_attempts self \<and> max_workers self1 = max_workers self"
      by (auto split: if_splits dest: leader_resolve_bounds)
    from True p l assms b1 show ?thesis
      by (cases r1) (auto simp: init_def Let_def split: if_splits sum.splits dest!: init_validate_bounds)
  qed
qed

lemma upload_file_async_bounds:
  "upload_file_async self rn fp ov uuid destiny w = (r, self', w') \<Longrightarrow>
     num_attempts self' = num_attempts self \<and> max_workers self' = max_workers self"
  by (auto simp: upload_file_async_def Let_def split: prod.splits sum.splits)

lemma check_workers_bounds:
  "check_workers self w = Some (r, self', w') \<Longrightarrow>
     num_attempts self' = num_attempts self \<and> max_workers self' = max_workers self"
  by (auto simp: check_workers_def split: option.splits prod.splits sum.splits)

lemma wait_bounds:
  "wait self w = Some (r, self', w') \<Longrightarrow>
     num_attempts self' = num_attempts self \<and> max_workers self' = max_workers self"
  by (auto simp: wait_def split: option.splits prod.splits)

lemma wait_and_close_bounds:
  "wait_and_close self w = Some (r, self', w') \<Longrightarrow>
     num_attempts self' = num_attempts self \<and> max_workers self' = max_workers self"
  by (auto simp: wait_and_close_def executor_shutdown_wait_def
      split: option.splits prod.splits sum.splits if_splits dest!: wait_bounds)

lemma step_bounds:
  assumes "step env c (self, w) = Some (self', w')"
  shows "num_attempts self' = num_attempts self \<and> max_workers self' = max_workers self"
proof (cases c)
  case Init
  with assms init_bounds [of env self w] show ?thesis by (cases "init env self w") auto
next
  case (UploadFileAsync rn fp ov uuid destiny)
  with assms upload_file_async_bounds [of self rn fp ov uuid destiny w] show ?thesis
    by (cases "upload_file_async self rn fp ov uuid destiny w") auto
next
  case CheckWorkers
  with assms show ?thesis by (auto dest: check_workers_bounds)
next
  case Wait
  with assms show ?thesis by (auto dest: wait_bounds)
next
  case WaitAndClose
  with assms show ?thesis by (auto dest: wait_and_close_bounds)
next
  case (TaskEnds h)
  with assms show ?thesis by simp
qed

lemma run_bounds:
  "run env cs (self, w) = Some (self', w') \<Longrightarrow>
     num_attempts self' = num_attempts self \<and> max_workers self' = max_workers self"
proof (induction cs arbitrary: self w)
  case Nil
  then show ?case by simp
next
  case (Cons c cs)
  then obtain self1 w1 where s: "step env c (self, w) = Some (self1, w1)"
    and r: "run env cs (self1, w1) = Some (self', w')"
    by (auto split: option.splits)
  from Cons.IH [OF r] step_bounds [OF s] show ?case by simp
qed

subsection \<open>Claims on construction\<close>

text \<open>
  C6. \<^verbatim>\<open>RemoteUploader(remote_folder, n, a)\<close> raises \<^verbatim>\<open>ValueError\<close> when \<open>n < 1\<close> or
  \<open>a < 1\<close>, before anything else is done. When both are at least 1 it returns an uploader
  with pool size \<open>n\<close> and attempt budget \<open>a\<close>, and after any sequence of calls of its
  methods, interleaved with tasks ending, that returns, both values are still the same.
\<close>

theorem constructor_bounds:
  "(n < 1 \<or> a < 1 \<longrightarrow> RemoteUploader env folder n a = Inl ValueError)
   \<and> (1 \<le> n \<and> 1 \<le> a \<longrightarrow>
        (\<exists>self. RemoteUploader env folder n a = Inr self
           \<and> max_workers self = n \<and> num_attempts self = a
           \<and> (\<forall>cs w self' w'. run env cs (self, w) = Some (self', w') \<longrightarrow>
                 max_workers self' = n \<and> num_attempts self' = a)))"
proof (intro conjI impI)
  assume "n < 1 \<or> a < 1"
  then show "RemoteUploader env folder n a = Inl ValueError" by (auto simp: RemoteUploader_def)
next
  assume ok: "1 \<le> n \<and> 1 \<le> a"
  obtain backend bucket p where pu: "parse_uri env folder = (backend, bucket, p)"
    by (cases "parse_uri env folder") auto
  with ok obtain self where s: "RemoteUploader env folder n a = Inr self"
    "max_workers self = n" "num_attempts self = a"
    by (simp add: RemoteUploader_def)
  with run_bounds show "\<exists>self. RemoteUploader env folder n a = Inr self
           \<and> max_workers self = n \<and> num_attempts self = a
           \<and> (\<forall>cs w self' w'. run env cs (self, w) = Some (self', w') \<longrightarrow>
                 max_workers self' = n \<and> num_attempts self' = a)"
    by blast
qed


theorem constructor_bounds_witness:
  "RemoteUploader example_env ''s3://bucket/run'' 0 3 = Inl ValueError
   \<and> RemoteUploader example_env ''s3://bucket/run'' 2 (- 1) = Inl ValueError
   \<and> RemoteUploader example_env ''s3://bucket/run'' 2 3 = Inr (example_uploader [])
   \<and> (\<exists>self' w'. run example_env
          [UploadFileAsync ''ckpt'' ''/tmp/stage/u1'' True ''u9'' (Some Succeeded), CheckWorkers,
           TaskEnds 0, WaitAndClose]
          (example_uploader [], staged_world) = Some (self', w')
        \<and> max_workers self' = 2 \<and> num_attempts self' = 3 \<and> futures self' = []
        \<and> executor_shutdown self')"
proof -
  have c: "RemoteUploader example_env ''s3://bucket/run'' 2 3 = Inr (example_uploader [])"
    by (simp add: RemoteUploader_def example_env_def example_uploader_def)
  have r: "\<exists>self' w'. run example_env
          [UploadFileAsync ''ckpt'' ''/tmp/stage/u1'' True ''u9'' (Some Succeeded), CheckWorkers,
           TaskEnds 0, WaitAndClose]
          (example_uploader [], staged_world) = Some (self', w')
        \<and> futures self' = [] \<and> executor_shutdown self'"
    by (simp add: upload_file_async_def os_path_join_def shutil_copy2_def executor_submit_def
        check_workers_def future_done_def task_ends_def wait_and_close_def wait_def
        future_exception_def exc_of_def executor_shutdown_wait_def eventual_def emit_def
        example_uploader_def staged_world_def Let_def)
  from r obtain self' w' where r': "run example_env
          [UploadFileAsync ''ckpt'' ''/tmp/stage/u1'' True ''u9'' (Some Succeeded), CheckWorkers,
           TaskEnds 0, WaitAndClose]
          (example_uploader [], staged_world) = Some (self', w')"
    "futures self' = []" "executor_shutdown self'" by blast
  have lo: "RemoteUploader example_env ''s3://bucket/run'' 0 3 = Inl ValueError"
    using constructor_bounds [of 0 3 example_env "''s3://bucket/run''"] by simp
  have lo2: "RemoteUploader example_env ''s3://bucket/run'' 2 (- 1) = Inl ValueError"
    using constructor_bounds [of 2 "- 1" example_env "''s3://bucket/run''"] by simp
  from constructor_bounds [of 2 3 example_env "''s3://bucket/run''"] c
  have "\<forall>cs w self' w'. run example_env cs (example_uploader [], w) = Some (self', w') \<longrightarrow>
                 max_workers self' = 2 \<and> num_attempts self' = 3"
    by simp
  with r'(1) have "max_workers self' = 2 \<and> num_attempts self' = 3" by blast
  with r' lo lo2 c show ?thesis by blast
qed

subsection \<open>Submission after closing\<close>

lemma wait_and_close_shuts:
  "wait_and_close self0 w0 = Some (Inr u, self, w1) \<Longrightarrow> executor_shutdown self"
  by (auto simp: wait_and_close_def executor_shutdown_wait_def
      split: option.splits prod.splits sum.splits if_splits)

lemma closed_pool_submission:
  assumes "executor_shutdown self"
  shows "\<exists>e w'. upload_file_async self rn fp ov uuid destiny w = (Inl e, self, w')
           \<and> fut w' = fut w \<and> next_future w' = next_future w
           \<and> (if fp \<in> files w
               then e = RuntimeError
                    \<and> files w' = insert (os_path_join (upload_staging_folder self) uuid) (files w)
               else e = FileNotFoundError \<and> files w' = files w)"
  using assms
  by (simp add: upload_file_async_def shutil_copy2_def executor_submit_def emit_def Let_def)

lemma close_example:
  "wait_and_close (example_uploader []) fresh_world
     = Some (Inr (), (example_uploader [])\<lparr>executor_shutdown := True\<rparr>,
             fresh_world\<lparr>trace := [Shutdown]\<rparr>)"
  by (simp add: wait_and_close_def wait_def executor_shutdown_wait_def emit_def
      example_uploader_def fresh_world_def)

text \<open>
  C7, as stated, fails: after \<^verbatim>\<open>wait_and_close()\<close> has returned, a call of
  \<^verbatim>\<open>upload_file_async\<close> on an existing file raises the closed-pool error, but only
  after the staging copy: \<^verbatim>\<open>/tmp/stage/u9\<close> was not there before the call and is
  there after it.
\<close>

theorem submission_after_close_counterexample:
  "wait_and_close (example_uploader []) fresh_world
     = Some (Inr (), (example_uploader [])\<lparr>executor_shutdown := True\<rparr>,
             fresh_world\<lparr>trace := [Shutdown]\<rparr>)
   \<and> upload_file_async ((example_uploader [])\<lparr>executor_shutdown := True\<rparr>) ''ckpt''
         ''/data/ckpt.pt'' True ''u9'' None (fresh_world\<lparr>trace := [Shutdown]\<rparr>)
     = (Inl RuntimeError, (example_uploader [])\<lparr>executor_shutdown := True\<rparr>,
        fresh_world\<lparr>files := {''/data/ckpt.pt'', ''/tmp/stage/u9''},
                     trace := [Shutdown, Copy ''/data/ckpt.pt'' ''/tmp/stage/u9'']\<rparr>)
   \<and> ''/tmp/stage/u9'' \<notin> files (fresh_world\<lparr>trace := [Shutdown]\<rparr>)"
  by (simp add: wait_and_close_def wait_def executor_shutdown_wait_def emit_def
      upload_file_async_def shutil_copy2_def executor_submit_def os_path_join_def Let_def
      example_uploader_def fresh_world_def insert_commute)

text \<open>
  C7, amended. On an uploader on which \<^verbatim>\<open>wait_and_close()\<close> has returned, a call of
  \<^verbatim>\<open>upload_file_async\<close> always raises, returns no handle, tracks none and creates no
  future. The staging copy comes first: when the source file exists it is copied into the
  staging area and the pool's \<^verbatim>\<open>submit\<close> then raises the closed-pool error; when it does
  not exist the copy raises and nothing is created.
\<close>

theorem submission_after_close:
  assumes "wait_and_close self0 w0 = Some (Inr u, self, w1)"
  shows "\<exists>e w'. upload_file_async self rn fp ov uuid destiny w = (Inl e, self, w')
           \<and> fut w' = fut w \<and> next_future w' = next_future w
           \<and> (if fp \<in> files w
               then e = RuntimeError
                    \<and> files w' = insert (os_path_join (upload_staging_folder self) uuid) (files w)
               else e = FileNotFoundError \<and> files w' = files w)"
  using closed_pool_submission [OF wait_and_close_shuts [OF assms]] .

theorem submission_after_close_witness:
  "wait_and_close (example_uploader []) fresh_world
     = Some (Inr (), (example_uploader [])\<lparr>executor_shutdown := True\<rparr>,
             fresh_world\<lparr>trace := [Shutdown]\<rparr>)
   \<and> ''/data/ckpt.pt'' \<in> files fresh_world
   \<and> (\<exists>w'. upload_file_async ((example_uploader [])\<lparr>executor_shutdown := True\<rparr>) ''ckpt''
         ''/data/ckpt.pt'' True ''u9'' None fresh_world
         = (Inl RuntimeError, (example_uploader [])\<lparr>executor_shutdown := True\<rparr>, w')
        \<and> files w' = {''/tmp/stage/u9'', ''/data/ckpt.pt''})"
proof -
  have f: "''/data/ckpt.pt'' \<in> files fresh_world" by (simp add: fresh_world_def)
  have j: "os_path_join (upload_staging_folder ((example_uploader [])\<lparr>executor_shutdown := True\<rparr>))
      ''u9'' = ''/tmp/stage/u9''" by (simp add: os_path_join_def example_uploader_def)
  have g: "files fresh_world = {''/data/ckpt.pt''}" by (simp add: fresh_world_def)
  from submission_after_close [OF close_example, of "''ckpt''" "''/data/ckpt.pt''" True "''u9''"
      None fresh_world] f j g close_example
  show ?thesis by auto
qed

subsection \<open>Credential validation in init\<close>

lemmas init_eval =
  init_def init_validate_def validate_once_def validations_made_def leader_resolve_def
  build_dbfs_backend_def retry_def sentinel_def emit_def is_transient_def eval_nat_numeral

text \<open>
  C8. On the leader (global rank 0), \<^verbatim>\<open>init()\<close> for a \<^verbatim>\<open>dbfs\<close> path outside the MLflow
  prefix (a Unity Catalog volume) builds the client and returns at line 134, before the
  validation at lines 146 to 150: no probe is made. On the same leader a generic store is
  probed, under the retry policy (the first probe fails with the transient error, the
  second succeeds), and a non-leader makes no probe.
\<close>

theorem init_skips_validation_on_uc_path:
  "RemoteUploader example_env ''dbfs:/Volumes/cat/sch/vol/run'' 2 3 = Inr uc_uploader
   \<and> get_global_rank example_env = 0
   \<and> init example_env uc_uploader fresh_world
       = (Inr (), uc_uploader\<lparr>object_store := Some (example_store\<lparr>is_mlflow := False\<rparr>)\<rparr>,
          fresh_world)
   \<and> trace fresh_world = []
   \<and> init example_env (example_uploader []) fresh_world
       = (Inr (), (example_uploader [])\<lparr>object_store := Some example_store\<rparr>,
          fresh_world\<lparr>trace := [Validate sentinel, Validate sentinel]\<rparr>)
   \<and> init (example_env\<lparr>get_global_rank := 1\<rparr>) (example_uploader []) fresh_world
       = (Inr (), (example_uploader [])\<lparr>object_store := Some example_store\<rparr>, fresh_world)"
  by (simp add: RemoteUploader_def init_eval example_env_def uc_uploader_def example_uploader_def
      fresh_world_def)

end
